theory Spec2Isabelle
  imports Main
begin

section \<open>Python values\<close>

text \<open>
  The values that flow through \<^verbatim>\<open>NotionWriter.py\<close>: the entries of a ranking
  dictionary, the JSON documents sent to the Notion API and the parsed bodies it answers
  with. A Python \<^verbatim>\<open>str\<close> is modelled by its UTF-8 encoding (a \<^typ>\<open>string\<close> of
  bytes), which is injective, so equality of strings is equality of models. A \<^verbatim>\<open>dict\<close>
  inside a value is an association list read with \<^const>\<open>map_of\<close>. Floats do not occur.
\<close>

datatype pyval =
    PNone
  | PBool bool
  | PInt int
  | PStr string
  | PList "pyval list"
  | PDict "(string \<times> pyval) list"

text \<open>
  The exceptions the module can raise, each with what Python attaches to it. All of them
  are instances of Python's \<^verbatim>\<open>Exception\<close>, the class the constructor raises by name.
\<close>

datatype exn =
    Exception pyval      \<comment> \<open>\<^verbatim>\<open>raise Exception(res.json()["message"])\<close>\<close>
  | KeyError string      \<comment> \<open>a missing dictionary key\<close>
  | TypeError            \<comment> \<open>subscripting or iterating a value that does not support it\<close>
  | JSONDecodeError      \<comment> \<open>\<^verbatim>\<open>Response.json()\<close> on a body that is not JSON\<close>

text \<open>\<^verbatim>\<open>v[k]\<close> for a string key \<open>k\<close>: only a dictionary can be subscripted by a string.\<close>

fun py_getitem :: "pyval \<Rightarrow> string \<Rightarrow> exn + pyval" where
  "py_getitem (PDict kvs) k =
     (case map_of kvs k of None \<Rightarrow> Inl (KeyError k) | Some v \<Rightarrow> Inr v)"
| "py_getitem PNone k = Inl TypeError"
| "py_getitem (PBool b) k = Inl TypeError"
| "py_getitem (PInt i) k = Inl TypeError"
| "py_getitem (PStr s) k = Inl TypeError"
| "py_getitem (PList xs) k = Inl TypeError"

text \<open>
  \<^verbatim>\<open>for x in v\<close>: a list yields its elements, a dictionary its keys, a string its
  one-character substrings (here one per byte; every one of them is a \<^const>\<open>PStr\<close>,
  which is all the module can observe of them); the other values are not iterable.
\<close>

fun py_iter :: "pyval \<Rightarrow> exn + pyval list" where
  "py_iter (PList xs) = Inr xs"
| "py_iter (PDict kvs) = Inr (map (\<lambda>kv. PStr (fst kv)) kvs)"
| "py_iter (PStr s) = Inr (map (\<lambda>c. PStr [c]) s)"
| "py_iter PNone = Inl TypeError"
| "py_iter (PBool b) = Inl TypeError"
| "py_iter (PInt i) = Inl TypeError"

text \<open>\<^verbatim>\<open>v == n\<close> for an integer literal \<open>n\<close>; \<^verbatim>\<open>True == 1\<close> and \<^verbatim>\<open>False == 0\<close> hold.\<close>

fun py_eq_int :: "pyval \<Rightarrow> int \<Rightarrow> bool" where
  "py_eq_int (PInt i) n = (i = n)"
| "py_eq_int (PBool b) n = ((if b then 1 else 0) = n)"
| "py_eq_int PNone n = False"
| "py_eq_int (PStr s) n = False"
| "py_eq_int (PList xs) n = False"
| "py_eq_int (PDict kvs) n = False"

section \<open>Presentation rules\<close>

subsection \<open>Rank to emoji\<close>

text \<open>The four emoji literals of \<^verbatim>\<open>get_player_emoji\<close>, as UTF-8.\<close>

definition sports_medal :: string where   \<comment> \<open>U+1F3C5\<close>
  "sports_medal = [CHR 0xF0, CHR 0x9F, CHR 0x8F, CHR 0x85]"

definition second_place_medal :: string where   \<comment> \<open>U+1F948\<close>
  "second_place_medal = [CHR 0xF0, CHR 0x9F, CHR 0xA5, CHR 0x88]"

definition third_place_medal :: string where   \<comment> \<open>U+1F949\<close>
  "third_place_medal = [CHR 0xF0, CHR 0x9F, CHR 0xA5, CHR 0x89]"

definition bust_in_silhouette :: string where   \<comment> \<open>U+1F464\<close>
  "bust_in_silhouette = [CHR 0xF0, CHR 0x9F, CHR 0x91, CHR 0xA4]"

definition get_player_emoji :: "pyval \<Rightarrow> string" where
  "get_player_emoji player_rank =
     (if py_eq_int player_rank 1 then sports_medal
      else if py_eq_int player_rank 2 then second_place_medal
      else if py_eq_int player_rank 3 then third_place_medal
      else bust_in_silhouette)"

subsection \<open>Country code to label\<close>

text \<open>
  The class attribute \<^verbatim>\<open>countries\<close>, in the order of the source. Each label is a flag
  followed by a space and the country's name; a flag is two regional-indicator code points
  (four bytes each), or for Wales and Scotland the black flag followed by six tag
  characters.
\<close>

definition countries :: "(string \<times> string) list" where
  "countries =
     [
      (''EGY'',
       [CHR 0xF0, CHR 0x9F, CHR 0x87, CHR 0xAA, CHR 0xF0, CHR 0x9F, CHR 0x87, CHR 0xAC] @ '' Egypt''),
      (''NZL'',
       [CHR 0xF0, CHR 0x9F, CHR 0x87, CHR 0xB3, CHR 0xF0, CHR 0x9F, CHR 0x87, CHR 0xBF] @ '' New Zealand''),
      (''ENG'',
       [CHR 0xF0, CHR 0x9F, CHR 0x87, CHR 0xAC, CHR 0xF0, CHR 0x9F, CHR 0x87, CHR 0xA7] @ '' England''),
      (''PER'',
       [CHR 0xF0, CHR 0x9F, CHR 0x87, CHR 0xB5, CHR 0xF0, CHR 0x9F, CHR 0x87, CHR 0xAA] @ '' Peru''),
      (''FRA'',
       [CHR 0xF0, CHR 0x9F, CHR 0x87, CHR 0xAB, CHR 0xF0, CHR 0x9F, CHR 0x87, CHR 0xB7] @ '' France''),
      (''WAL'',
       [CHR 0xF0, CHR 0x9F, CHR 0x8F, CHR 0xB4, CHR 0xF3, CHR 0xA0, CHR 0x81, CHR 0xA7,
        CHR 0xF3, CHR 0xA0, CHR 0x81, CHR 0xA2, CHR 0xF3, CHR 0xA0, CHR 0x81, CHR 0xB7,
        CHR 0xF3, CHR 0xA0, CHR 0x81, CHR 0xAC, CHR 0xF3, CHR 0xA0, CHR 0x81, CHR 0xB3,
        CHR 0xF3, CHR 0xA0, CHR 0x81, CHR 0xBF] @ '' Wales''),
      (''COL'',
       [CHR 0xF0, CHR 0x9F, CHR 0x87, CHR 0xA8, CHR 0xF0, CHR 0x9F, CHR 0x87, CHR 0xB4] @ '' Colombia''),
      (''IND'',
       [CHR 0xF0, CHR 0x9F, CHR 0x87, CHR 0xAE, CHR 0xF0, CHR 0x9F, CHR 0x87, CHR 0xB3] @ '' India''),
      (''SUI'',
       [CHR 0xF0, CHR 0x9F, CHR 0x87, CHR 0xA8, CHR 0xF0, CHR 0x9F, CHR 0x87, CHR 0xAD] @ '' Switzerland''),
      (''GER'',
       [CHR 0xF0, CHR 0x9F, CHR 0x87, CHR 0xA9, CHR 0xF0, CHR 0x9F, CHR 0x87, CHR 0xAA] @ '' Germany''),
      (''USA'',
       [CHR 0xF0, CHR 0x9F, CHR 0x87, CHR 0xBA, CHR 0xF0, CHR 0x9F, CHR 0x87, CHR 0xB8] @ '' United States''),
      (''QAT'',
       [CHR 0xF0, CHR 0x9F, CHR 0x87, CHR 0xB6, CHR 0xF0, CHR 0x9F, CHR 0x87, CHR 0xA6] @ '' Qatar''),
      (''SCO'',
       [CHR 0xF0, CHR 0x9F, CHR 0x8F, CHR 0xB4, CHR 0xF3, CHR 0xA0, CHR 0x81, CHR 0xA7,
        CHR 0xF3, CHR 0xA0, CHR 0x81, CHR 0xA2, CHR 0xF3, CHR 0xA0, CHR 0x81, CHR 0xB3,
        CHR 0xF3, CHR 0xA0, CHR 0x81, CHR 0xA3, CHR 0xF3, CHR 0xA0, CHR 0x81, CHR 0xB4,
        CHR 0xF3, CHR 0xA0, CHR 0x81, CHR 0xBF] @ '' Scotland''),
      (''MEX'',
       [CHR 0xF0, CHR 0x9F, CHR 0x87, CHR 0xB2, CHR 0xF0, CHR 0x9F, CHR 0x87, CHR 0xBD] @ '' Mexico''),
      (''ESP'',
       [CHR 0xF0, CHR 0x9F, CHR 0x87, CHR 0xAA, CHR 0xF0, CHR 0x9F, CHR 0x87, CHR 0xB8] @ '' Spain''),
      (''HKG'',
       [CHR 0xF0, CHR 0x9F, CHR 0x87, CHR 0xAD, CHR 0xF0, CHR 0x9F, CHR 0x87, CHR 0xB0] @ '' Hong-Kong''),
      (''PAK'',
       [CHR 0xF0, CHR 0x9F, CHR 0x87, CHR 0xB5, CHR 0xF0, CHR 0x9F, CHR 0x87, CHR 0xB0] @ '' Pakistan''),
      (''HUN'',
       [CHR 0xF0, CHR 0x9F, CHR 0x87, CHR 0xAD, CHR 0xF0, CHR 0x9F, CHR 0x87, CHR 0xBA] @ '' Hungary''),
      (''POR'',
       [CHR 0xF0, CHR 0x9F, CHR 0x87, CHR 0xB5, CHR 0xF0, CHR 0x9F, CHR 0x87, CHR 0xB9] @ '' Portugal''),
      (''ARG'',
       [CHR 0xF0, CHR 0x9F, CHR 0x87, CHR 0xA6, CHR 0xF0, CHR 0x9F, CHR 0x87, CHR 0xB7] @ '' Argentina''),
      (''CAN'',
       [CHR 0xF0, CHR 0x9F, CHR 0x87, CHR 0xA8, CHR 0xF0, CHR 0x9F, CHR 0x87, CHR 0xA6] @ '' Canada''),
      (''MAS'',
       [CHR 0xF0, CHR 0x9F, CHR 0x87, CHR 0xB2, CHR 0xF0, CHR 0x9F, CHR 0x87, CHR 0xBE] @ '' Malaysia''),
      (''JPN'',
       [CHR 0xF0, CHR 0x9F, CHR 0x87, CHR 0xAF, CHR 0xF0, CHR 0x9F, CHR 0x87, CHR 0xB5] @ '' Japan''),
      (''GUA'',
       [CHR 0xF0, CHR 0x9F, CHR 0x87, CHR 0xAC, CHR 0xF0, CHR 0x9F, CHR 0x87, CHR 0xB9] @ '' Guatemala''),
      (''BEL'',
       [CHR 0xF0, CHR 0x9F, CHR 0x87, CHR 0xA7, CHR 0xF0, CHR 0x9F, CHR 0x87, CHR 0xAA] @ '' Belgium''),
      (''RSA'',
       [CHR 0xF0, CHR 0x9F, CHR 0x87, CHR 0xBF, CHR 0xF0, CHR 0x9F, CHR 0x87, CHR 0xA6] @ '' South Africa'')
     ]"

definition get_player_country :: "string \<Rightarrow> string" where
  "get_player_country player_country =
     (case map_of countries player_country of
        Some label \<Rightarrow> label
      | None \<Rightarrow> player_country)"

section \<open>The transport: \<^verbatim>\<open>utils.py\<close>\<close>

text \<open>
  What \<^verbatim>\<open>requests.request\<close> is given and what the module reads of its answer:
  the attribute \<^verbatim>\<open>ok\<close> and the result of \<^verbatim>\<open>json()\<close>, which raises when the body
  is not JSON (\<^const>\<open>None\<close> here). The field \<open>data\<close> holds the JSON document that
  the caller passes through \<^verbatim>\<open>json_dumps\<close>; its serialisation is not modelled.
\<close>

record http_request =
  url :: string
  http_method :: string
  headers :: "(string \<times> string) list"
  data :: "pyval option"

record response =
  ok :: bool
  json_body :: "pyval option"

definition json :: "response \<Rightarrow> exn + pyval" where
  "json res = (case json_body res of None \<Rightarrow> Inl JSONDecodeError | Some v \<Rightarrow> Inr v)"

text \<open>
  The network and the service behind it are outside the module: a transport answers a
  request in a world \<open>'w\<close> and leaves a new world.
\<close>

type_synonym 'w transport = "http_request \<Rightarrow> 'w \<Rightarrow> response \<times> 'w"

definition query_notion ::
  "'w transport \<Rightarrow> string \<Rightarrow> string \<Rightarrow> pyval option \<Rightarrow> string \<Rightarrow> 'w \<Rightarrow> response \<times> 'w" where
  "query_notion request endpoint meth dat notion_api_key w =
     (let hdrs = [(''Authorization'', ''Bearer '' @ notion_api_key),
                  (''Notion-Version'', ''2022-06-28''),
                  (''Content-Type'', ''application/json'')]
      in request \<lparr>url = ''https://api.notion.com/v1'' @ endpoint,
                  http_method = meth,
                  headers = hdrs,
                  data = dat\<rparr> w)"

text \<open>
  A transport that also writes down every exchange, in order. Running a function of the
  module over \<open>recording request\<close> shows which requests it issues.
\<close>

definition recording ::
  "'w transport \<Rightarrow> ('w \<times> (http_request \<times> response) list) transport" where
  "recording request rq wt =
     (let (res, w') = request rq (fst wt) in (res, (w', snd wt @ [(rq, res)])))"

text \<open>
  What sending a list of requests one after another gives: the exchanges, each request
  with the answer the transport gives in the world the earlier requests left, and the
  world left after the last one.
\<close>

fun exchanges :: "'w transport \<Rightarrow> http_request list \<Rightarrow> 'w \<Rightarrow> (http_request \<times> response) list" where
  "exchanges request [] w = []"
| "exchanges request (rq # rqs) w =
     (rq, fst (request rq w)) # exchanges request rqs (snd (request rq w))"

fun state_after :: "'w transport \<Rightarrow> http_request list \<Rightarrow> 'w \<Rightarrow> 'w" where
  "state_after request [] w = w"
| "state_after request (rq # rqs) w = state_after request rqs (snd (request rq w))"

section \<open>The writer: \<^verbatim>\<open>NotionWriter.py\<close>\<close>

record NotionWriter =
  notion_api_key :: string
  db_id :: string


text \<open>The loop of \<^verbatim>\<open>get_current_pages_id\<close>: \<^verbatim>\<open>pages_id.append(page["id"])\<close>.\<close>

fun append_ids :: "pyval list \<Rightarrow> pyval list \<Rightarrow> exn + pyval list" where
  "append_ids pages_id [] = Inr pages_id"
| "append_ids pages_id (page # rest) =
     (case py_getitem page ''id'' of
        Inl e \<Rightarrow> Inl e
      | Inr i \<Rightarrow> append_ids (pages_id @ [i]) rest)"

definition get_current_pages_id ::
  "'w transport \<Rightarrow> NotionWriter \<Rightarrow> 'w \<Rightarrow> (exn + pyval list) \<times> 'w" where
  "get_current_pages_id request self w =
     (let (res, w') = query_notion request (''/databases/'' @ db_id self @ ''/query'')
                        ''POST'' None (notion_api_key self) w
      in case json res of
           Inl e \<Rightarrow> (Inl e, w')
         | Inr j \<Rightarrow>
             (case py_getitem j ''results'' of
                Inl e \<Rightarrow> (Inl e, w')
              | Inr results \<Rightarrow>
                  (case py_iter results of
                     Inl e \<Rightarrow> (Inl e, w')
                   | Inr ps \<Rightarrow> (append_ids [] ps, w'))))"

text \<open>\<^verbatim>\<open>delete_pages\<close>, on the \<^verbatim>\<open>list[str]\<close> of its signature.\<close>

fun delete_pages :: "'w transport \<Rightarrow> NotionWriter \<Rightarrow> string list \<Rightarrow> 'w \<Rightarrow> bool \<times> 'w" where
  "delete_pages request self [] w = (True, w)"
| "delete_pages request self (page_id # rest) w =
     (let (res, w') = query_notion request (''/pages/'' @ page_id) ''PATCH''
                        (Some (PDict [(''archived'', PBool True)])) (notion_api_key self) w
      in if \<not> ok res then (False, w') else delete_pages request self rest w')"

subsection \<open>Today's date\<close>

text \<open>
  \<^verbatim>\<open>str(datetime.now().date())\<close> is the ISO form of the date: year, month and day in
  decimal, zero-padded to four, two and two digits. The date itself is read from the
  clock and is an argument of the model.
\<close>

record date =
  year :: nat
  month :: nat
  day :: nat

definition digit :: "nat \<Rightarrow> char" where
  "digit n = ''0123456789'' ! n"

fun str_nat :: "nat \<Rightarrow> string" where
  "str_nat n = (if n < 10 then [digit n] else str_nat (n div 10) @ [digit (n mod 10)])"

definition zfill :: "nat \<Rightarrow> string \<Rightarrow> string" where
  "zfill width s = replicate (width - length s) (CHR ''0'') @ s"

definition str_date :: "date \<Rightarrow> string" where
  "str_date d =
     zfill 4 (str_nat (year d)) @ ''-'' @ zfill 2 (str_nat (month d)) @ ''-''
       @ zfill 2 (str_nat (day d))"

subsection \<open>The page object\<close>

text \<open>
  \<^verbatim>\<open>page_info\<close> is a dictionary; a missing key raises. The dictionary display is
  evaluated top to bottom, so \<^verbatim>\<open>"rank"\<close> is looked up before \<^verbatim>\<open>"name"\<close>.
\<close>

definition build_page_object ::
  "NotionWriter \<Rightarrow> date \<Rightarrow> (string \<rightharpoonup> pyval) \<Rightarrow> bool \<Rightarrow> exn + pyval" where
  "build_page_object self today page_info to_post =
     (case page_info ''rank'' of
        None \<Rightarrow> Inl (KeyError ''rank'')
      | Some rank \<Rightarrow>
          (case page_info ''name'' of
             None \<Rightarrow> Inl (KeyError ''name'')
           | Some name \<Rightarrow>
               (let page_object =
                  [(''icon'', PDict [(''emoji'', PStr (get_player_emoji rank))]),
                   (''properties'', PDict
                      [(''Player'' @ [CHR 0x27] @ ''s name'', PDict
                          [(''title'', PList
                              [PDict [(''type'', PStr ''text''),
                                      (''text'', PDict [(''content'', name)])]])]),
                       (''Rank'', PDict [(''number'', rank)]),
                       (''Date'', PDict
                          [(''date'', PDict
                              [(''start'', PStr (str_date today)),
                               (''end'', PNone),
                               (''time_zone'', PNone)])])])]
                in if to_post
                   then Inr (PDict (page_object
                                     @ [(''parent'', PDict [(''database_id'', PStr (db_id self))])]))
                   else Inr (PDict page_object))))"

section \<open>Reading a page object and the requests of the module\<close>

text \<open>\<^verbatim>\<open>v[k1][k2]...\<close> and the keys of a dictionary, to state what a page object holds.\<close>

fun py_path :: "pyval \<Rightarrow> string list \<Rightarrow> exn + pyval" where
  "py_path v [] = Inr v"
| "py_path v (k # ks) =
     (case py_getitem v k of Inl e \<Rightarrow> Inl e | Inr u \<Rightarrow> py_path u ks)"

fun py_keys :: "pyval \<Rightarrow> string list" where
  "py_keys (PDict kvs) = map fst kvs"
| "py_keys PNone = []"
| "py_keys (PBool b) = []"
| "py_keys (PInt i) = []"
| "py_keys (PStr s) = []"
| "py_keys (PList xs) = []"

text \<open>The request that \<^const>\<open>query_notion\<close> hands to the transport.\<close>

definition notion_request :: "string \<Rightarrow> string \<Rightarrow> pyval option \<Rightarrow> string \<Rightarrow> http_request" where
  "notion_request endpoint meth dat key =
     \<lparr>url = ''https://api.notion.com/v1'' @ endpoint,
      http_method = meth,
      headers = [(''Authorization'', ''Bearer '' @ key),
                 (''Notion-Version'', ''2022-06-28''),
                 (''Content-Type'', ''application/json'')],
      data = dat\<rparr>"


definition query_request :: "NotionWriter \<Rightarrow> http_request" where
  "query_request self =
     notion_request (''/databases/'' @ db_id self @ ''/query'') ''POST'' None (notion_api_key self)"

definition archive_request :: "NotionWriter \<Rightarrow> string \<Rightarrow> http_request" where
  "archive_request self page_id =
     notion_request (''/pages/'' @ page_id) ''PATCH''
       (Some (PDict [(''archived'', PBool True)])) (notion_api_key self)"

definition create_request :: "NotionWriter \<Rightarrow> pyval \<Rightarrow> http_request" where
  "create_request self page_object =
     notion_request ''/pages'' ''POST'' (Some page_object) (notion_api_key self)"

section \<open>The page store and the synchronisation\<close>

text \<open>
  Modelled from the spec: the state of the hosted page store (section 3, Page, and
  section 6, PageStore), a service outside the repository. The store holds one database
  of pages in creation order, each live or archived, with the page object it was created
  from. \<open>page_size s\<close> is the number of results a single query returns at most,
  \<open>mint s n\<close> the identifier the store gives to the \<open>n\<close>-th page it stores,
  \<open>down s n\<close> tells whether the service is down when the \<open>n\<close>-th request
  arrives, and \<open>journal s\<close> lists the requests received.
\<close>

record page =
  page_id :: string
  archived :: bool
  content :: pyval

record store =
  api_key :: string
  database :: string
  pages :: "page list"
  page_size :: nat
  mint :: "nat \<Rightarrow> string"
  down :: "nat \<Rightarrow> bool"
  journal :: "http_request list"

text \<open>
  Modelled from the spec: the pages of the database that a query sees, those that are not
  archived (glossary, Archive: removal from active view without erasure).
\<close>

definition live :: "store \<Rightarrow> page list" where
  "live s = filter (\<lambda>p. \<not> archived p) (pages s)"

text \<open>
  Modelled from the spec: the two answers of the store (section 6, ok or error): an error
  carries a message, an accepted request the document asked for.
\<close>

definition rejected :: "string \<Rightarrow> response" where
  "rejected message =
     \<lparr>ok = False,
      json_body = Some (PDict [(''object'', PStr ''error''), (''message'', PStr message)])\<rparr>"

definition accepted :: "pyval \<Rightarrow> response" where
  "accepted document = \<lparr>ok = True, json_body = Some document\<rparr>"

text \<open>Modelled from the spec: a result of a query, a page with its id (section 6).\<close>

definition page_json :: "page \<Rightarrow> pyval" where
  "page_json p =
     PDict [(''object'', PStr ''page''), (''id'', PStr (page_id p)),
            (''archived'', PBool (archived p))]"

text \<open>
  Modelled from the spec: the PageStore contract of section 6 (verify, query_pages,
  archive_page, create_page) as the transport the writer talks to. The store rejects a
  request that arrives while the service is down, whose credential is not its own, or
  whose target (database, live page, parent database) does not exist. It answers a query
  with a single page of results, the first \<open>page_size s\<close> live pages; archiving marks
  the page archived; creating appends a live page with a fresh identifier.
\<close>

definition notion :: "store transport" where
  "notion rq s =
     (let s' = s\<lparr>journal := journal s @ [rq]\<rparr>;
          api = ''https://api.notion.com/v1''
      in
        if down s (length (journal s)) then (rejected ''Service unavailable.'', s')
        else if map_of (headers rq) ''Authorization'' \<noteq> Some (''Bearer '' @ api_key s)
          then (rejected ''API token is invalid.'', s')
        else if http_method rq = ''GET'' \<and> url rq = api @ ''/databases/'' @ database s
          then (accepted (PDict [(''object'', PStr ''database''), (''id'', PStr (database s))]), s')
        else if http_method rq = ''POST'' \<and> url rq = api @ ''/databases/'' @ database s @ ''/query''
          then (accepted (PDict [(''object'', PStr ''list''),
                                 (''results'', PList (map page_json (take (page_size s) (live s))))]),
                s')
        else if http_method rq = ''PATCH'' \<and> data rq = Some (PDict [(''archived'', PBool True)])
                \<and> (\<exists>p \<in> set (live s). url rq = api @ ''/pages/'' @ page_id p)
          then (accepted (PDict [(''object'', PStr ''page''), (''archived'', PBool True)]),
                s'\<lparr>pages := map (\<lambda>p. if url rq = api @ ''/pages/'' @ page_id p
                                       then p\<lparr>archived := True\<rparr> else p) (pages s)\<rparr>)
        else if http_method rq = ''POST'' \<and> url rq = api @ ''/pages''
          then (case data rq of
                  None \<Rightarrow> (rejected ''Body failed validation.'', s')
                | Some page_object \<Rightarrow>
                    if py_getitem page_object ''parent''
                         = Inr (PDict [(''database_id'', PStr (database s))])
                    then (accepted (PDict [(''object'', PStr ''page''),
                                           (''id'', PStr (mint s (length (pages s))))]),
                          s'\<lparr>pages := pages s @ [\<lparr>page_id = mint s (length (pages s)),
                                                     archived = False,
                                                     content = page_object\<rparr>]\<rparr>)
                    else (rejected ''Could not find database.'', s'))
        else (rejected ''Could not find object.'', s'))"

text \<open>
  Modelled from the spec: the identifiers handed from the listing to the deletion are
  strings (\<^verbatim>\<open>list[str]\<close> in both signatures); a value that is not a string is
  outside the typed interface and raises here.
\<close>

fun page_ids_str :: "pyval list \<Rightarrow> exn + string list" where
  "page_ids_str [] = Inr []"
| "page_ids_str (PStr s # rest) =
     (case page_ids_str rest of Inl e \<Rightarrow> Inl e | Inr ss \<Rightarrow> Inr (s # ss))"
| "page_ids_str (v # rest) = Inl TypeError"

text \<open>
  Modelled from the spec: steps 3 and 4 of \<^verbatim>\<open>update_db\<close> (section 4.1). For each
  entity in input order, build its page object for insertion and submit a create-page
  request; stop with false at the first request the store rejects, return true when every
  request succeeded.
\<close>

fun create_pages ::
  "'w transport \<Rightarrow> NotionWriter \<Rightarrow> date \<Rightarrow> (string \<rightharpoonup> pyval) list \<Rightarrow> 'w \<Rightarrow> (exn + bool) \<times> 'w" where
  "create_pages request self today [] w = (Inr True, w)"
| "create_pages request self today (entity # rest) w =
     (case build_page_object self today entity True of
        Inl e \<Rightarrow> (Inl e, w)
      | Inr page_object \<Rightarrow>
          (let (res, w') = query_notion request ''/pages'' ''POST'' (Some page_object)
                             (notion_api_key self) w
           in if \<not> ok res then (Inr False, w')
              else create_pages request self today rest w'))"

text \<open>
  Modelled from the spec: \<^verbatim>\<open>update_db\<close>, which the source only declares (an abstract
  operation whose body is \<^verbatim>\<open>pass\<close>); its implementation is not among the source
  files. Section 4.1 gives the algorithm: fetch the current page ids, delete them and
  return false if that fails, then insert the entities as above.
\<close>

definition update_db ::
  "'w transport \<Rightarrow> NotionWriter \<Rightarrow> date \<Rightarrow> (string \<rightharpoonup> pyval) list \<Rightarrow> 'w \<Rightarrow> (exn + bool) \<times> 'w" where
  "update_db request self today players_ranking w =
     (case get_current_pages_id request self w of
        (Inl e, w1) \<Rightarrow> (Inl e, w1)
      | (Inr ids, w1) \<Rightarrow>
          (case page_ids_str ids of
             Inl e \<Rightarrow> (Inl e, w1)
           | Inr pages_id \<Rightarrow>
               (case delete_pages request self pages_id w1 of
                  (False, w2) \<Rightarrow> (Inr False, w2)
                | (True, w2) \<Rightarrow> create_pages request self today players_ranking w2)))"

section \<open>Sample data\<close>

text \<open>
  The end-to-end scenarios of the specification: a writer for the database \<open>db\<close>, the
  ranking of Alice and Bob, a store that holds the pages \<open>P1\<close> and \<open>P2\<close> and
  returns at most \<open>n\<close> pages per query, a transport that rejects exactly the
  \<open>k\<close>-th request it is sent (counting from zero), and one that answers every request
  with the same response.
\<close>

definition example_writer :: NotionWriter where
  "example_writer = \<lparr>notion_api_key = ''secret'', db_id = ''db''\<rparr>"

definition example_date :: date where
  "example_date = \<lparr>year = 2024, month = 3, day = 9\<rparr>"

definition alice :: "string \<rightharpoonup> pyval" where
  "alice = [''name'' \<mapsto> PStr ''Alice'', ''rank'' \<mapsto> PInt 1, ''country'' \<mapsto> PStr ''FRA'']"

definition bob :: "string \<rightharpoonup> pyval" where
  "bob = [''name'' \<mapsto> PStr ''Bob'', ''rank'' \<mapsto> PInt 2, ''country'' \<mapsto> PStr ''USA'']"

definition example_store :: "nat \<Rightarrow> store" where
  "example_store n =
     \<lparr>api_key = ''secret'', database = ''db'',
      pages = [\<lparr>page_id = ''P1'', archived = False, content = PNone\<rparr>,
               \<lparr>page_id = ''P2'', archived = False, content = PNone\<rparr>],
      page_size = n,
      mint = (\<lambda>k. ''N'' @ str_nat k),
      down = (\<lambda>k. False),
      journal = []\<rparr>"

definition failing_at :: "nat \<Rightarrow> nat transport" where
  "failing_at k rq n = (\<lparr>ok = (n \<noteq> k), json_body = None\<rparr>, Suc n)"

definition answering :: "response \<Rightarrow> unit transport" where
  "answering res rq w = (res, w)"

section \<open>Properties\<close>

subsection \<open>Rank to emoji\<close>

text \<open>
  Claim C7. For every integer rank \<open>r\<close>, \<^const>\<open>get_player_emoji\<close> returns the sports
  medal when \<open>r = 1\<close>, the second-place medal when \<open>r = 2\<close>, the third-place medal when
  \<open>r = 3\<close>, and the bust in silhouette for every other integer, zero and the negative
  ranks included.
\<close>

theorem get_player_emoji_by_rank:
  "get_player_emoji (PInt 1) = [CHR 0xF0, CHR 0x9F, CHR 0x8F, CHR 0x85]
   \<and> get_player_emoji (PInt 2) = [CHR 0xF0, CHR 0x9F, CHR 0xA5, CHR 0x88]
   \<and> get_player_emoji (PInt 3) = [CHR 0xF0, CHR 0x9F, CHR 0xA5, CHR 0x89]
   \<and> (r \<noteq> 1 \<and> r \<noteq> 2 \<and> r \<noteq> 3 \<longrightarrow>
        get_player_emoji (PInt r) = [CHR 0xF0, CHR 0x9F, CHR 0x91, CHR 0xA4])
   \<and> (r \<le> 0 \<longrightarrow> get_player_emoji (PInt r) = [CHR 0xF0, CHR 0x9F, CHR 0x91, CHR 0xA4])"
  by (simp add: get_player_emoji_def sports_medal_def second_place_medal_def
        third_place_medal_def bust_in_silhouette_def)

theorem get_player_emoji_by_rank_witness:
  "(0::int) \<noteq> 1 \<and> (0::int) \<noteq> 2 \<and> (0::int) \<noteq> 3 \<and> (0::int) \<le> 0
   \<and> get_player_emoji (PInt 0) = [CHR 0xF0, CHR 0x9F, CHR 0x91, CHR 0xA4]"
  using get_player_emoji_by_rank [of 0] by simp

subsection \<open>Country code to label\<close>

lemma countries_distinct: "distinct (map fst countries)"
  by (simp add: countries_def)

lemma get_player_country_known:
  assumes "(code, label) \<in> set countries"
  shows "get_player_country code = label"
proof -
  have "map_of countries code = Some label"
    using assms countries_distinct by (simp add: map_of_eq_Some_iff)
  then show ?thesis by (simp add: get_player_country_def)
qed

lemma get_player_country_unknown:
  assumes "code \<notin> fst ` set countries"
  shows "get_player_country code = code"
proof -
  have "map_of countries code = None"
    using assms by (simp add: map_of_eq_None_iff)
  then show ?thesis by (simp add: get_player_country_def)
qed

text \<open>
  Claim C8. For every string, \<^const>\<open>get_player_country\<close> returns the label that the
  table \<^const>\<open>countries\<close> gives to it when the string is one of the table's 26 codes,
  and returns the string itself when it is not.
\<close>

theorem get_player_country_table:
  "(\<forall>(code, label) \<in> set countries. get_player_country code = label)
   \<and> (player_country \<notin> fst ` set countries
        \<longrightarrow> get_player_country player_country = player_country)
   \<and> map fst countries =
        [''EGY'', ''NZL'', ''ENG'', ''PER'', ''FRA'', ''WAL'', ''COL'', ''IND'', ''SUI'',
         ''GER'', ''USA'', ''QAT'', ''SCO'', ''MEX'', ''ESP'', ''HKG'', ''PAK'', ''HUN'',
         ''POR'', ''ARG'', ''CAN'', ''MAS'', ''JPN'', ''GUA'', ''BEL'', ''RSA'']
   \<and> length countries = 26"
proof (intro conjI)
  show "\<forall>(code, label) \<in> set countries. get_player_country code = label"
  proof (rule ballI)
    fix entry assume "entry \<in> set countries"
    then have "get_player_country (fst entry) = snd entry"
      by (intro get_player_country_known) simp
    then show "case entry of (code, label) \<Rightarrow> get_player_country code = label"
      by (simp add: case_prod_beta)
  qed
  show "player_country \<notin> fst ` set countries
          \<longrightarrow> get_player_country player_country = player_country"
    using get_player_country_unknown by simp
  show "map fst countries =
        [''EGY'', ''NZL'', ''ENG'', ''PER'', ''FRA'', ''WAL'', ''COL'', ''IND'', ''SUI'',
         ''GER'', ''USA'', ''QAT'', ''SCO'', ''MEX'', ''ESP'', ''HKG'', ''PAK'', ''HUN'',
         ''POR'', ''ARG'', ''CAN'', ''MAS'', ''JPN'', ''GUA'', ''BEL'', ''RSA'']"
    by (simp add: countries_def)
  show "length countries = 26"
    by (simp add: countries_def)
qed

theorem get_player_country_table_witness:
  "get_player_country ''FRA''
     = [CHR 0xF0, CHR 0x9F, CHR 0x87, CHR 0xAB, CHR 0xF0, CHR 0x9F, CHR 0x87, CHR 0xB7] @ '' France''
   \<and> ''XYZ'' \<notin> fst ` set countries
   \<and> get_player_country ''XYZ'' = ''XYZ''"
proof -
  have known: "(''FRA'', [CHR 0xF0, CHR 0x9F, CHR 0x87, CHR 0xAB, CHR 0xF0, CHR 0x9F, CHR 0x87, CHR 0xB7]
                  @ '' France'') \<in> set countries"
    by (simp add: countries_def)
  have unknown: "''XYZ'' \<notin> fst ` set countries"
    by (simp add: countries_def)
  note table = get_player_country_table [of "''XYZ''"]
  from table have every: "\<forall>(code, label) \<in> set countries. get_player_country code = label"
    by (rule conjunct1)
  from table have other: "''XYZ'' \<notin> fst ` set countries \<longrightarrow> get_player_country ''XYZ'' = ''XYZ''"
    by (rule conjunct1 [OF conjunct2])
  from bspec [OF every known] have "get_player_country ''FRA''
     = [CHR 0xF0, CHR 0x9F, CHR 0x87, CHR 0xAB, CHR 0xF0, CHR 0x9F, CHR 0x87, CHR 0xB7] @ '' France''"
    by (simp only: prod.case)
  moreover from other unknown have "get_player_country ''XYZ'' = ''XYZ''"
    by (rule mp)
  ultimately show ?thesis
    using unknown by (intro conjI)
qed

subsection \<open>The page object\<close>











text \<open>
  Claim C5. For every entity (a dictionary with a rank and a name), the page object built
  for insertion has a \<open>parent\<close> field whose \<open>database_id\<close> is the writer's database id,
  and the page object built otherwise has no \<open>parent\<close> field.
\<close>

theorem build_page_object_parent:
  assumes "page_info ''rank'' = Some rank" and "page_info ''name'' = Some name"
  shows "(\<exists>obj. build_page_object self today page_info True = Inr obj
            \<and> py_getitem obj ''parent'' = Inr (PDict [(''database_id'', PStr (db_id self))])
            \<and> py_path obj [''parent'', ''database_id''] = Inr (PStr (db_id self)))
       \<and> (\<exists>obj. build_page_object self today page_info False = Inr obj
            \<and> ''parent'' \<notin> set (py_keys obj)
            \<and> py_getitem obj ''parent'' = Inl (KeyError ''parent''))"
  using assms by (simp add: build_page_object_def)

theorem build_page_object_parent_witness:
  "alice ''rank'' = Some (PInt 1) \<and> alice ''name'' = Some (PStr ''Alice'')
   \<and> (case build_page_object example_writer example_date alice True of
         Inl e \<Rightarrow> False
       | Inr obj \<Rightarrow> py_path obj [''parent'', ''database_id''] = Inr (PStr ''db''))
   \<and> (case build_page_object example_writer example_date alice False of
         Inl e \<Rightarrow> False
       | Inr obj \<Rightarrow> py_getitem obj ''parent'' = Inl (KeyError ''parent''))"
proof -
  have rank: "alice ''rank'' = Some (PInt 1)" and name: "alice ''name'' = Some (PStr ''Alice'')"
    by (simp_all add: alice_def)
  from build_page_object_parent [OF rank name, of example_writer example_date] rank name
  show ?thesis
    by (auto simp: example_writer_def)
qed



text \<open>
  Claim C9. The page object does not depend on the entity's country: two entities with the
  same name and the same rank, whatever their other entries, give the same page object on
  the same day and for the same \<open>to_post\<close>.
\<close>

theorem build_page_object_ignores_country:
  assumes "a ''name'' = b ''name''" and "a ''rank'' = b ''rank''"
  shows "build_page_object self today a to_post = build_page_object self today b to_post"
  using assms by (simp add: build_page_object_def split: option.splits)

theorem build_page_object_ignores_country_witness:
  "alice ''name'' = (alice(''country'' \<mapsto> PStr ''EGY'')) ''name''
   \<and> alice ''rank'' = (alice(''country'' \<mapsto> PStr ''EGY'')) ''rank''
   \<and> alice ''country'' \<noteq> (alice(''country'' \<mapsto> PStr ''EGY'')) ''country''
   \<and> build_page_object example_writer example_date alice True
       = build_page_object example_writer example_date (alice(''country'' \<mapsto> PStr ''EGY'')) True"
proof -
  have name: "alice ''name'' = (alice(''country'' \<mapsto> PStr ''EGY'')) ''name''"
    and rank: "alice ''rank'' = (alice(''country'' \<mapsto> PStr ''EGY'')) ''rank''"
    by simp_all
  have "alice ''country'' \<noteq> (alice(''country'' \<mapsto> PStr ''EGY'')) ''country''"
    by (simp add: alice_def)
  with build_page_object_ignores_country [OF name rank, of example_writer example_date True]
    name rank
  show ?thesis by blast
qed

subsection \<open>Requests and their recording\<close>

lemma query_notion_request:
  "query_notion request endpoint meth dat key w
     = request (notion_request endpoint meth dat key) w"
  by (simp add: query_notion_def notion_request_def)

lemma recording_apply:
  "recording request rq (w, tr) =
     (fst (request rq w), (snd (request rq w), tr @ [(rq, fst (request rq w))]))"
  by (simp add: recording_def split: prod.splits)

lemma get_current_pages_id_unfold:
  "get_current_pages_id request self w =
     (case json (fst (request (query_request self) w)) of
        Inl e \<Rightarrow> (Inl e, snd (request (query_request self) w))
      | Inr j \<Rightarrow>
          (case py_getitem j ''results'' of
             Inl e \<Rightarrow> (Inl e, snd (request (query_request self) w))
           | Inr results \<Rightarrow>
               (case py_iter results of
                  Inl e \<Rightarrow> (Inl e, snd (request (query_request self) w))
                | Inr ps \<Rightarrow> (append_ids [] ps, snd (request (query_request self) w)))))"
  unfolding get_current_pages_id_def query_notion_request query_request_def Let_def case_prod_beta
  by (rule refl)

lemma delete_pages_Cons:
  "delete_pages request self (p # rest) w =
     (if \<not> ok (fst (request (archive_request self p) w))
      then (False, snd (request (archive_request self p) w))
      else delete_pages request self rest (snd (request (archive_request self p) w)))"
  by (simp add: query_notion_request archive_request_def split: prod.splits)

lemma create_pages_Cons:
  "create_pages request self today (entity # rest) w =
     (case build_page_object self today entity True of
        Inl e \<Rightarrow> (Inl e, w)
      | Inr page_object \<Rightarrow>
          if \<not> ok (fst (request (create_request self page_object) w))
          then (Inr False, snd (request (create_request self page_object) w))
          else create_pages request self today rest
                 (snd (request (create_request self page_object) w)))"
  by (simp add: query_notion_request create_request_def split: prod.splits sum.splits)

subsection \<open>Construction\<close>




subsection \<open>Listing the current pages\<close>

lemma append_ids_ok:
  assumes "\<forall>p \<in> set ps. \<exists>fields i. p = PDict fields \<and> map_of fields ''id'' = Some i"
  shows "\<exists>ids. append_ids acc ps = Inr (acc @ ids)
           \<and> map Inr ids = map (\<lambda>p. py_getitem p ''id'') ps"
  using assms
proof (induction ps arbitrary: acc)
  case Nil
  then show ?case by simp
next
  case (Cons p ps)
  then obtain fields i where p: "p = PDict fields" "map_of fields ''id'' = Some i" by auto
  from Cons obtain ids where
    "append_ids (acc @ [i]) ps = Inr ((acc @ [i]) @ ids)"
    "map Inr ids = map (\<lambda>p. py_getitem p ''id'') ps"
    by (metis list.set_intros(2))
  then show ?case using p by (intro exI [of _ "i # ids"]) simp
qed

text \<open>
  Claim C10, as stated, fails: a body with a \<open>results\<close> field does not suffice for a
  list to be returned. When a result has no \<open>id\<close>, the lookup \<^verbatim>\<open>page["id"]\<close> raises.
\<close>

theorem get_current_pages_id_counterexample:
  "py_getitem (PDict [(''results'', PList [PDict [(''object'', PStr ''page'')]])]) ''results''
     = Inr (PList [PDict [(''object'', PStr ''page'')]])
   \<and> get_current_pages_id
       (answering \<lparr>ok = True,
                   json_body = Some (PDict [(''results'', PList [PDict [(''object'', PStr ''page'')]])])\<rparr>)
       example_writer ()
     = (Inl (KeyError ''id''), ())"
  by (simp add: get_current_pages_id_unfold json_def answering_def)

text \<open>
  Claim C10, amended. \<^const>\<open>get_current_pages_id\<close> does not read the success status
  of the answer. For every answer whose body is an object with a \<open>results\<close> field that
  is a list of objects each having an \<open>id\<close>, it returns the id of each result, in the
  order of the list (the empty list for no results). For every answer whose body has no
  \<open>results\<close> field, it raises.
\<close>

theorem get_current_pages_id_of_results:
  "(\<forall>kvs ps. json_body (fst (request (query_request self) w)) = Some (PDict kvs)
        \<and> map_of kvs ''results'' = Some (PList ps)
        \<and> (\<forall>p \<in> set ps. \<exists>fields i. p = PDict fields \<and> map_of fields ''id'' = Some i)
      \<longrightarrow> (\<exists>ids. get_current_pages_id request self w
                    = (Inr ids, snd (request (query_request self) w))
                \<and> map Inr ids = map (\<lambda>p. py_getitem p ''id'') ps))
   \<and> ((\<nexists>j v. json_body (fst (request (query_request self) w)) = Some j
               \<and> py_getitem j ''results'' = Inr v)
      \<longrightarrow> isl (fst (get_current_pages_id request self w)))
   \<and> get_current_pages_id
       (\<lambda>rq w0. (fst (request rq w0)\<lparr>ok := flag\<rparr>, snd (request rq w0))) self w
       = get_current_pages_id request self w"
proof (intro conjI allI impI)
  fix kvs ps
  assume h: "json_body (fst (request (query_request self) w)) = Some (PDict kvs)
        \<and> map_of kvs ''results'' = Some (PList ps)
        \<and> (\<forall>p \<in> set ps. \<exists>fields i. p = PDict fields \<and> map_of fields ''id'' = Some i)"
  from append_ids_ok [of ps "[]"] h obtain ids where
    "append_ids [] ps = Inr ids" "map Inr ids = map (\<lambda>p. py_getitem p ''id'') ps"
    by auto
  with h show "\<exists>ids. get_current_pages_id request self w
                    = (Inr ids, snd (request (query_request self) w))
                \<and> map Inr ids = map (\<lambda>p. py_getitem p ''id'') ps"
    by (simp add: get_current_pages_id_unfold json_def)
next
  assume "\<nexists>j v. json_body (fst (request (query_request self) w)) = Some j
               \<and> py_getitem j ''results'' = Inr v"
  then show "isl (fst (get_current_pages_id request self w))"
    by (auto simp: get_current_pages_id_unfold json_def split: option.splits sum.splits)
next
  show "get_current_pages_id
          (\<lambda>rq w0. (fst (request rq w0)\<lparr>ok := flag\<rparr>, snd (request rq w0))) self w
       = get_current_pages_id request self w"
    by (simp add: get_current_pages_id_unfold json_def split: option.splits sum.splits)
qed

theorem get_current_pages_id_of_results_witness:
  "get_current_pages_id
     (answering \<lparr>ok = False,
                 json_body = Some (PDict [(''results'',
                     PList [PDict [(''id'', PStr ''P1'')], PDict [(''id'', PStr ''P2'')]])])\<rparr>)
     example_writer ()
     = (Inr [PStr ''P1'', PStr ''P2''], ())
   \<and> isl (fst (get_current_pages_id (answering (rejected ''API token is invalid.''))
                 example_writer ()))"
proof -
  let ?res = "\<lparr>ok = False,
               json_body = Some (PDict [(''results'',
                   PList [PDict [(''id'', PStr ''P1'')], PDict [(''id'', PStr ''P2'')]])])\<rparr>"
  from get_current_pages_id_of_results [of "answering ?res" example_writer "()" True]
  obtain ids where
    "get_current_pages_id (answering ?res) example_writer () = (Inr ids, ())"
    "map Inr ids = map (\<lambda>p. py_getitem p ''id'') [PDict [(''id'', PStr ''P1'')], PDict [(''id'', PStr ''P2'')]]"
    by (auto simp: answering_def)
  then have first: "get_current_pages_id (answering ?res) example_writer ()
                      = (Inr [PStr ''P1'', PStr ''P2''], ())"
    by auto
  from get_current_pages_id_of_results
         [of "answering (rejected ''API token is invalid.'')" example_writer "()" True]
  have "isl (fst (get_current_pages_id (answering (rejected ''API token is invalid.''))
                    example_writer ()))"
    by (auto simp: answering_def rejected_def)
  with first show ?thesis by (intro conjI)
qed

subsection \<open>Deleting pages\<close>

lemma delete_pages_recorded:
  "\<exists>tr. delete_pages (recording request) self ids (w, tr0)
          = (fst (delete_pages request self ids w),
             (snd (delete_pages request self ids w), tr0 @ tr))
      \<and> map fst tr = map (archive_request self) (take (length tr) ids)
      \<and> tr = exchanges request (map fst tr) w
      \<and> snd (delete_pages request self ids w) = state_after request (map fst tr) w
      \<and> (\<forall>k < length tr. \<not> ok (snd (tr ! k)) \<longrightarrow>
            \<not> fst (delete_pages request self ids w) \<and> length tr = Suc k)
      \<and> ((\<forall>x \<in> set tr. ok (snd x)) \<longrightarrow> length tr = length ids)
      \<and> (fst (delete_pages request self ids w)
           \<longleftrightarrow> length tr = length ids \<and> (\<forall>x \<in> set tr. ok (snd x)))"
proof (induction ids arbitrary: w tr0)
  case Nil
  show ?case by (intro exI [of _ "[]"]) simp
next
  case (Cons p rest)
  let ?rq = "archive_request self p"
  let ?res = "fst (request ?rq w)"
  let ?w1 = "snd (request ?rq w)"
  show ?case
  proof (cases "ok ?res")
    case False
    have "delete_pages (recording request) self (p # rest) (w, tr0)
            = (False, (?w1, tr0 @ [(?rq, ?res)]))"
      using False by (simp add: delete_pages_Cons recording_apply del: delete_pages.simps)
    moreover have "delete_pages request self (p # rest) w = (False, ?w1)"
      using False by (simp add: delete_pages_Cons del: delete_pages.simps)
    ultimately show ?thesis
      using False by (intro exI [of _ "[(?rq, ?res)]"]) simp
  next
    case True
    from Cons.IH [of ?w1 "tr0 @ [(?rq, ?res)]"] obtain tr where
      run: "delete_pages (recording request) self rest (?w1, tr0 @ [(?rq, ?res)])
              = (fst (delete_pages request self rest ?w1),
                 (snd (delete_pages request self rest ?w1), (tr0 @ [(?rq, ?res)]) @ tr))"
      and reqs: "map fst tr = map (archive_request self) (take (length tr) rest)"
      and exch: "tr = exchanges request (map fst tr) ?w1"
      and after: "snd (delete_pages request self rest ?w1) = state_after request (map fst tr) ?w1"
      and stop: "\<forall>k < length tr. \<not> ok (snd (tr ! k)) \<longrightarrow>
                   \<not> fst (delete_pages request self rest ?w1) \<and> length tr = Suc k"
      and progress: "(\<forall>x \<in> set tr. ok (snd x)) \<longrightarrow> length tr = length rest"
      and res: "fst (delete_pages request self rest ?w1)
                  \<longleftrightarrow> length tr = length rest \<and> (\<forall>x \<in> set tr. ok (snd x))"
      by blast
    have plain: "delete_pages request self (p # rest) w = delete_pages request self rest ?w1"
      using True by (simp add: delete_pages_Cons del: delete_pages.simps)
    have rec: "delete_pages (recording request) self (p # rest) (w, tr0)
                 = delete_pages (recording request) self rest (?w1, tr0 @ [(?rq, ?res)])"
      using True by (simp add: delete_pages_Cons recording_apply del: delete_pages.simps)
    let ?tr = "(?rq, ?res) # tr"
    have stop': "\<forall>k < length ?tr. \<not> ok (snd (?tr ! k)) \<longrightarrow>
                   \<not> fst (delete_pages request self rest ?w1) \<and> length ?tr = Suc k"
    proof (intro allI impI)
      fix k assume k: "k < length ?tr" and bad: "\<not> ok (snd (?tr ! k))"
      show "\<not> fst (delete_pages request self rest ?w1) \<and> length ?tr = Suc k"
      proof (cases k)
        case 0
        with bad True show ?thesis by simp
      next
        case (Suc j)
        with k bad stop show ?thesis by simp
      qed
    qed
    have c1: "delete_pages (recording request) self (p # rest) (w, tr0)
                = (fst (delete_pages request self (p # rest) w),
                   (snd (delete_pages request self (p # rest) w), tr0 @ ?tr))"
      by (simp only: plain rec run) simp
    have c2: "map fst ?tr = map (archive_request self) (take (length ?tr) (p # rest))"
      using reqs by simp
    have c3: "?tr = exchanges request (map fst ?tr) w"
      using exch by simp
    have c4: "snd (delete_pages request self (p # rest) w) = state_after request (map fst ?tr) w"
      using after by (simp only: plain) simp
    have c5: "\<forall>k < length ?tr. \<not> ok (snd (?tr ! k)) \<longrightarrow>
                \<not> fst (delete_pages request self (p # rest) w) \<and> length ?tr = Suc k"
      using stop' by (simp only: plain)
    have c6: "(\<forall>x \<in> set ?tr. ok (snd x)) \<longrightarrow> length ?tr = length (p # rest)"
      using progress by simp
    have c7: "fst (delete_pages request self (p # rest) w)
                \<longleftrightarrow> length ?tr = length (p # rest) \<and> (\<forall>x \<in> set ?tr. ok (snd x))"
      using res True by (simp only: plain) simp
    from c1 c2 c3 c4 c5 c6 c7 show ?thesis by blast
  qed
qed

text \<open>
  Claim C2. For every sequence of page ids, \<^const>\<open>delete_pages\<close> issues archive
  requests for the ids in the given order, each answered by the store in the state the
  earlier ones left, and goes on to the next id as long as the store accepts: if every
  request issued was accepted, one was issued for every id. If the store rejects the
  request for the \<open>k\<close>-th id, the result is false and that request is the last one
  issued. The result is true if and only if a request was issued for every id and every
  one was accepted; when it is false, the last request issued was rejected and all before
  it were accepted. Recording the exchanges changes neither the result nor the final
  state of the store, which is the state after the requests issued.
\<close>

theorem delete_pages_stops_at_first_rejection:
  assumes "delete_pages (recording request) self pages_id (w, []) = (b, (w', tr))"
  shows "map fst tr = map (archive_request self) (take (length tr) pages_id)
       \<and> tr = exchanges request (map fst tr) w
       \<and> w' = state_after request (map fst tr) w
       \<and> (\<forall>k < length tr. \<not> ok (snd (tr ! k)) \<longrightarrow> \<not> b \<and> length tr = Suc k)
       \<and> ((\<forall>x \<in> set tr. ok (snd x)) \<longrightarrow> length tr = length pages_id)
       \<and> (pages_id \<noteq> [] \<longrightarrow> tr \<noteq> [])
       \<and> (b \<longleftrightarrow> length tr = length pages_id \<and> (\<forall>x \<in> set tr. ok (snd x)))
       \<and> (\<not> b \<longrightarrow> tr \<noteq> [] \<and> \<not> ok (snd (last tr)) \<and> (\<forall>x \<in> set (butlast tr). ok (snd x)))
       \<and> delete_pages request self pages_id w = (b, w')"
proof -
  from delete_pages_recorded [of request self pages_id w "[]"] assms
  have reqs: "map fst tr = map (archive_request self) (take (length tr) pages_id)"
    and exch: "tr = exchanges request (map fst tr) w"
    and after: "w' = state_after request (map fst tr) w"
    and stop: "\<forall>k < length tr. \<not> ok (snd (tr ! k)) \<longrightarrow> \<not> b \<and> length tr = Suc k"
    and progress: "(\<forall>x \<in> set tr. ok (snd x)) \<longrightarrow> length tr = length pages_id"
    and res: "b \<longleftrightarrow> length tr = length pages_id \<and> (\<forall>x \<in> set tr. ok (snd x))"
    and plain_b: "fst (delete_pages request self pages_id w) = b"
    and plain_w: "snd (delete_pages request self pages_id w) = w'"
    by auto
  have plain: "delete_pages request self pages_id w = (b, w')"
    using plain_b plain_w by (simp add: prod_eq_iff)
  have nonempty: "pages_id \<noteq> [] \<longrightarrow> tr \<noteq> []"
    using progress by auto
  have failed: "\<not> b \<longrightarrow> tr \<noteq> [] \<and> \<not> ok (snd (last tr)) \<and> (\<forall>x \<in> set (butlast tr). ok (snd x))"
  proof
    assume nb: "\<not> b"
    with res progress obtain x where x: "x \<in> set tr" "\<not> ok (snd x)" by blast
    then obtain k where k: "k < length tr" "tr ! k = x" by (auto simp: in_set_conv_nth)
    with x stop have len: "length tr = Suc k" by auto
    from x have ne: "tr \<noteq> []" by auto
    with len k have "last tr = x" by (simp add: last_conv_nth)
    moreover have "\<forall>y \<in> set (butlast tr). ok (snd y)"
    proof
      fix y assume "y \<in> set (butlast tr)"
      then obtain j where j: "j < length (butlast tr)" "butlast tr ! j = y"
        by (auto simp: in_set_conv_nth)
      then have jl: "j < length tr" "tr ! j = y" "Suc j \<noteq> length tr"
        by (simp_all add: nth_butlast)
      show "ok (snd y)"
      proof (rule ccontr)
        assume "\<not> ok (snd y)"
        with jl stop have "length tr = Suc j" by auto
        with jl show False by simp
      qed
    qed
    ultimately show "tr \<noteq> [] \<and> \<not> ok (snd (last tr)) \<and> (\<forall>x \<in> set (butlast tr). ok (snd x))"
      using ne x by simp
  qed
  from reqs exch after stop progress nonempty res failed plain show ?thesis
    by (intro conjI)
qed

theorem delete_pages_stops_at_first_rejection_witness:
  "delete_pages (recording (failing_at 1)) example_writer [''P1'', ''P2'', ''P3''] (0, [])
     = (False, (2, [(archive_request example_writer ''P1'', \<lparr>ok = True, json_body = None\<rparr>),
                    (archive_request example_writer ''P2'', \<lparr>ok = False, json_body = None\<rparr>)]))
   \<and> delete_pages (failing_at 1) example_writer [''P1'', ''P2'', ''P3''] 0 = (False, 2)
   \<and> delete_pages (recording (failing_at 7)) example_writer [''P1'', ''P2''] (0, [])
     = (True, (2, [(archive_request example_writer ''P1'', \<lparr>ok = True, json_body = None\<rparr>),
                   (archive_request example_writer ''P2'', \<lparr>ok = True, json_body = None\<rparr>)]))
   \<and> delete_pages (failing_at 7) example_writer [''P1'', ''P2''] 0 = (True, 2)"
proof -
  have run: "delete_pages (recording (failing_at 1)) example_writer [''P1'', ''P2'', ''P3''] (0, [])
     = (False, (2, [(archive_request example_writer ''P1'', \<lparr>ok = True, json_body = None\<rparr>),
                    (archive_request example_writer ''P2'', \<lparr>ok = False, json_body = None\<rparr>)]))"
    by (simp add: delete_pages_Cons recording_apply failing_at_def del: delete_pages.simps)
  have run2: "delete_pages (recording (failing_at 7)) example_writer [''P1'', ''P2''] (0, [])
     = (True, (2, [(archive_request example_writer ''P1'', \<lparr>ok = True, json_body = None\<rparr>),
                   (archive_request example_writer ''P2'', \<lparr>ok = True, json_body = None\<rparr>)]))"
    by (simp add: delete_pages_Cons recording_apply failing_at_def del: delete_pages.simps(2))
  from delete_pages_stops_at_first_rejection [OF run]
  have "delete_pages (failing_at 1) example_writer [''P1'', ''P2'', ''P3''] 0 = (False, 2)"
    by (elim conjE)
  moreover from delete_pages_stops_at_first_rejection [OF run2]
  have "delete_pages (failing_at 7) example_writer [''P1'', ''P2''] 0 = (True, 2)"
    by (elim conjE)
  ultimately show ?thesis
    using run run2 by (intro conjI)
qed

subsection \<open>What the store answers\<close>

lemma notion_query_results:
  assumes "json (fst (notion (query_request self) s)) = Inr j"
      and "py_getitem j ''results'' = Inr rs"
  shows "rs = PList (map page_json (take (page_size s) (live s)))"
  using assms
  by (auto simp: notion_def query_request_def notion_request_def Let_def json_def
        rejected_def accepted_def split: if_splits)

lemma notion_query_state:
  "snd (notion (query_request self) s) = s\<lparr>journal := journal s @ [query_request self]\<rparr>"
  by (auto simp: notion_def query_request_def notion_request_def Let_def split: if_splits)

lemma notion_query_accepted:
  assumes "notion_api_key self = api_key s" and "db_id self = database s"
      and "\<not> down s (length (journal s))"
  shows "fst (notion (query_request self) s)
           = accepted (PDict [(''object'', PStr ''list''),
                              (''results'', PList (map page_json (take (page_size s) (live s))))])"
  using assms by (simp add: notion_def query_request_def notion_request_def Let_def)

lemma notion_archive_state:
  assumes "ok (fst (notion (archive_request self pid) s))"
  shows "snd (notion (archive_request self pid) s)
           = s\<lparr>journal := journal s @ [archive_request self pid],
               pages := map (\<lambda>p. if page_id p = pid then p\<lparr>archived := True\<rparr> else p) (pages s)\<rparr>"
  using assms
  by (auto simp: notion_def archive_request_def notion_request_def Let_def
        rejected_def accepted_def split: if_splits)

lemma notion_archive_accepted:
  assumes "notion_api_key self = api_key s" and "\<not> down s (length (journal s))"
      and "pid \<in> page_id ` set (live s)"
  shows "ok (fst (notion (archive_request self pid) s))"
  using assms
  by (auto simp: notion_def archive_request_def notion_request_def Let_def accepted_def)

lemma notion_create_state:
  assumes "ok (fst (notion (create_request self obj) s))"
  shows "snd (notion (create_request self obj) s)
           = s\<lparr>journal := journal s @ [create_request self obj],
               pages := pages s @ [\<lparr>page_id = mint s (length (pages s)), archived = False,
                                    content = obj\<rparr>]\<rparr>"
  using assms
  by (auto simp: notion_def create_request_def notion_request_def Let_def
        rejected_def accepted_def split: if_splits option.splits)

lemma append_ids_page_json:
  "append_ids acc (map page_json ps) = Inr (acc @ map (\<lambda>p. PStr (page_id p)) ps)"
  by (induction ps arbitrary: acc) (simp_all add: page_json_def)

lemma page_ids_str_PStr:
  "page_ids_str (map (\<lambda>p. PStr (page_id p)) ps) = Inr (map page_id ps)"
  by (induction ps) simp_all

lemma notion_get_current_pages_id:
  assumes "get_current_pages_id notion self s = (Inr ids, s1)"
  shows "ids = map (\<lambda>p. PStr (page_id p)) (take (page_size s) (live s))
       \<and> s1 = s\<lparr>journal := journal s @ [query_request self]\<rparr>"
proof -
  from assms obtain j rs ps where
    j: "json (fst (notion (query_request self) s)) = Inr j"
    and rs: "py_getitem j ''results'' = Inr rs"
    and ps: "py_iter rs = Inr ps"
    and ids: "append_ids [] ps = Inr ids"
    and s1: "s1 = snd (notion (query_request self) s)"
    by (auto simp: get_current_pages_id_unfold split: sum.splits)
  from notion_query_results [OF j rs] ps
  have "ps = map page_json (take (page_size s) (live s))" by simp
  with ids have "ids = map (\<lambda>p. PStr (page_id p)) (take (page_size s) (live s))"
    by (simp add: append_ids_page_json)
  with s1 show ?thesis by (simp add: notion_query_state)
qed

lemma notion_get_current_pages_id_accepted:
  assumes "notion_api_key self = api_key s" and "db_id self = database s"
      and "\<not> down s (length (journal s))"
  shows "get_current_pages_id notion self s
           = (Inr (map (\<lambda>p. PStr (page_id p)) (take (page_size s) (live s))),
              s\<lparr>journal := journal s @ [query_request self]\<rparr>)"
  by (simp add: get_current_pages_id_unfold notion_query_accepted [OF assms] notion_query_state
        accepted_def json_def append_ids_page_json)

lemma notion_delete_pages:
  assumes "delete_pages notion self ids s = (True, s')"
  shows "s' = s\<lparr>journal := journal s @ map (archive_request self) ids,
                pages := map (\<lambda>p. if page_id p \<in> set ids then p\<lparr>archived := True\<rparr> else p)
                           (pages s)\<rparr>"
  using assms
proof (induction ids arbitrary: s)
  case Nil
  then show ?case by simp
next
  case (Cons pid rest)
  let ?s1 = "snd (notion (archive_request self pid) s)"
  from Cons.prems have accepted: "ok (fst (notion (archive_request self pid) s))"
    and rest: "delete_pages notion self rest ?s1 = (True, s')"
    by (auto simp: delete_pages_Cons simp del: delete_pages.simps split: if_splits)
  note s1 = notion_archive_state [OF accepted]
  from Cons.IH [OF rest] have
    "s' = ?s1\<lparr>journal := journal ?s1 @ map (archive_request self) rest,
              pages := map (\<lambda>p. if page_id p \<in> set rest then p\<lparr>archived := True\<rparr> else p)
                         (pages ?s1)\<rparr>" .
  then show ?case
    by (simp add: s1 o_def cong: map_cong)
qed

lemma notion_delete_pages_accepted:
  assumes "notion_api_key self = api_key s" and "\<forall>n. \<not> down s n"
      and "distinct ids" and "set ids \<subseteq> page_id ` set (live s)"
  shows "fst (delete_pages notion self ids s)"
  using assms
proof (induction ids arbitrary: s)
  case Nil
  then show ?case by simp
next
  case (Cons pid rest)
  let ?s1 = "snd (notion (archive_request self pid) s)"
  have accepted: "ok (fst (notion (archive_request self pid) s))"
    using Cons.prems by (intro notion_archive_accepted) auto
  note s1 = notion_archive_state [OF accepted]
  have sub: "set rest \<subseteq> page_id ` set (live ?s1)"
  proof
    fix i assume i: "i \<in> set rest"
    with Cons.prems obtain p where p: "p \<in> set (pages s)" "\<not> archived p" "page_id p = i"
      by (auto simp: live_def)
    from i Cons.prems have "i \<noteq> pid" by auto
    with p show "i \<in> page_id ` set (live ?s1)"
      by (force simp: s1 live_def)
  qed
  have key: "notion_api_key self = api_key ?s1" and up: "\<forall>n. \<not> down ?s1 n"
    using Cons.prems by (simp_all add: s1)
  have dist: "distinct rest" using Cons.prems by simp
  have "fst (delete_pages notion self rest ?s1)"
    by (rule Cons.IH [OF key up dist sub])
  with accepted show ?case
    by (simp add: delete_pages_Cons del: delete_pages.simps)
qed

lemma live_all_archived:
  assumes "set (map page_id (live s)) \<subseteq> set ids"
  shows "map (\<lambda>p. if page_id p \<in> set ids then p\<lparr>archived := True\<rparr> else p) (pages s)
           = map (\<lambda>p. p\<lparr>archived := True\<rparr>) (pages s)"
proof (rule map_cong [OF refl])
  fix p assume "p \<in> set (pages s)"
  show "(if page_id p \<in> set ids then p\<lparr>archived := True\<rparr> else p) = p\<lparr>archived := True\<rparr>"
  proof (cases "archived p")
    case True
    then show ?thesis by simp
  next
    case False
    with \<open>p \<in> set (pages s)\<close> have "p \<in> set (live s)" by (simp add: live_def)
    with assms have "page_id p \<in> set ids" by auto
    then show ?thesis by simp
  qed
qed

lemma notion_create_pages:
  assumes "create_pages notion self today entities s = (Inr True, s')"
  shows "\<exists>new. pages s' = pages s @ new
           \<and> (\<forall>p \<in> set new. \<not> archived p)
           \<and> map (\<lambda>p. Inr (content p)) new
               = map (\<lambda>entity. build_page_object self today entity True) entities
           \<and> journal s' = journal s @ map (\<lambda>p. create_request self (content p)) new"
  using assms
proof (induction entities arbitrary: s)
  case Nil
  then show ?case by simp
next
  case (Cons entity rest)
  from Cons.prems obtain obj where
    obj: "build_page_object self today entity True = Inr obj"
    and accepted: "ok (fst (notion (create_request self obj) s))"
    and rest: "create_pages notion self today rest (snd (notion (create_request self obj) s))
                 = (Inr True, s')"
    by (auto simp: create_pages_Cons simp del: create_pages.simps split: sum.splits if_splits)
  let ?p = "\<lparr>page_id = mint s (length (pages s)), archived = False, content = obj\<rparr>"
  let ?s1 = "snd (notion (create_request self obj) s)"
  note s1 = notion_create_state [OF accepted]
  from Cons.IH [OF rest] obtain new where
    new: "pages s' = pages ?s1 @ new" "\<forall>p \<in> set new. \<not> archived p"
      "map (\<lambda>p. Inr (content p)) new
         = map (\<lambda>entity. build_page_object self today entity True) rest"
      "journal s' = journal ?s1 @ map (\<lambda>p. create_request self (content p)) new"
    by blast
  show ?case
    using new obj by (intro exI [of _ "?p # new"]) (simp add: s1)
qed

subsection \<open>Synchronisation\<close>

text \<open>
  Claim C1, as stated, fails: a query returns a single page of results, so a store that
  holds more live pages than that keeps the others. With one page per query and the pages
  \<open>P1\<close> and \<open>P2\<close> in the store, synchronising the ranking of Alice alone returns
  true and leaves two live pages, the stale \<open>P2\<close> and Alice's.
\<close>

theorem update_db_stale_page_counterexample:
  "fst (update_db notion example_writer example_date [alice] (example_store 1)) = Inr True
   \<and> map page_id (live (example_store 1)) = [''P1'', ''P2'']
   \<and> map page_id (live (snd (update_db notion example_writer example_date [alice]
                                (example_store 1))))
       = [''P2'', ''N2'']"
  by (simp add: update_db_def get_current_pages_id_def query_notion_def notion_def Let_def
        json_def accepted_def rejected_def live_def page_json_def example_writer_def
        example_store_def example_date_def alice_def bob_def build_page_object_def digit_def)

text \<open>
  Claim C1, amended. For every ranking, if \<^const>\<open>update_db\<close> returns true on a store
  that held no more live pages than one query returns, then the live pages of the store
  afterwards are, one for one and in the same order, the page objects built for insertion
  from the entities of the ranking, and every page that was in the store before is
  archived: the pages of the store are the former pages, all archived, followed by the
  new live ones.
\<close>

theorem update_db_replaces_pages:
  assumes "update_db notion self today players_ranking s = (Inr True, s')"
      and "length (live s) \<le> page_size s"
  shows "map (\<lambda>p. Inr (content p)) (live s')
           = map (\<lambda>entity. build_page_object self today entity True) players_ranking
       \<and> pages s' = map (\<lambda>p. p\<lparr>archived := True\<rparr>) (pages s) @ live s'"
proof -
  from assms(1) obtain ids s1 pages_id s2 where
    q: "get_current_pages_id notion self s = (Inr ids, s1)"
    and c: "page_ids_str ids = Inr pages_id"
    and d: "delete_pages notion self pages_id s1 = (True, s2)"
    and i: "create_pages notion self today players_ranking s2 = (Inr True, s')"
    by (auto simp: update_db_def split: prod.splits sum.splits bool.splits)
  from notion_get_current_pages_id [OF q] assms(2)
  have ids: "ids = map (\<lambda>p. PStr (page_id p)) (live s)"
    and s1: "s1 = s\<lparr>journal := journal s @ [query_request self]\<rparr>" by simp_all
  from c ids have pages_id: "pages_id = map page_id (live s)"
    by (simp add: page_ids_str_PStr)
  have "live s1 = live s" "pages s1 = pages s" by (simp_all add: s1 live_def)
  with pages_id have "set (map page_id (live s1)) \<subseteq> set pages_id" by simp
  from notion_delete_pages [OF d] live_all_archived [OF this]
  have s2: "pages s2 = map (\<lambda>p. p\<lparr>archived := True\<rparr>) (pages s)"
    using \<open>pages s1 = pages s\<close> by simp
  from notion_create_pages [OF i] obtain new where
    new: "pages s' = pages s2 @ new" "\<forall>p \<in> set new. \<not> archived p"
      "map (\<lambda>p. Inr (content p)) new
         = map (\<lambda>entity. build_page_object self today entity True) players_ranking"
    by blast
  have "live s' = new"
    using new(1,2) by (simp add: live_def s2 filter_map o_def filter_id_conv)
  with new s2 show ?thesis by simp
qed

theorem update_db_replaces_pages_witness:
  "fst (update_db notion example_writer example_date [alice, bob] (example_store 100)) = Inr True
   \<and> length (live (example_store 100)) \<le> page_size (example_store 100)
   \<and> map page_id (live (snd (update_db notion example_writer example_date [alice, bob]
                                (example_store 100))))
       = [''N2'', ''N3'']
   \<and> map (\<lambda>p. Inr (content p))
         (live (snd (update_db notion example_writer example_date [alice, bob]
                      (example_store 100))))
       = [build_page_object example_writer example_date alice True,
          build_page_object example_writer example_date bob True]"
proof -
  let ?run = "update_db notion example_writer example_date [alice, bob] (example_store 100)"
  have ok: "fst ?run = Inr True"
    by (simp add: update_db_def get_current_pages_id_def query_notion_def notion_def Let_def
        json_def accepted_def rejected_def live_def page_json_def example_writer_def
        example_store_def example_date_def alice_def bob_def build_page_object_def digit_def)
  then have run: "?run = (Inr True, snd ?run)"
    by (simp add: prod_eq_iff)
  have fits: "length (live (example_store 100)) \<le> page_size (example_store 100)"
    by (simp add: example_store_def live_def)
  have ids: "map page_id (live (snd ?run)) = [''N2'', ''N3'']"
    by (simp add: update_db_def get_current_pages_id_def query_notion_def notion_def Let_def
        json_def accepted_def rejected_def live_def page_json_def example_writer_def
        example_store_def example_date_def alice_def bob_def build_page_object_def digit_def)
  from update_db_replaces_pages [OF run fits] ok fits ids show ?thesis
    by simp
qed

text \<open>
  Claim C4, as stated, fails for the same reason: with one page per query and two pages in
  the store, synchronising the empty ranking returns true and leaves \<open>P2\<close> live, so
  the store is not empty, and a second call is not a no-operation: it archives \<open>P2\<close>.
\<close>

theorem update_db_empty_ranking_counterexample:
  "fst (update_db notion example_writer example_date [] (example_store 1)) = Inr True
   \<and> map page_id (live (snd (update_db notion example_writer example_date []
                                (example_store 1))))
       = [''P2'']
   \<and> live (snd (update_db notion example_writer example_date []
                  (snd (update_db notion example_writer example_date [] (example_store 1)))))
       = []"
  by (simp add: update_db_def get_current_pages_id_def query_notion_def notion_def Let_def
        json_def accepted_def rejected_def live_def page_json_def example_writer_def
        example_store_def example_date_def alice_def bob_def build_page_object_def digit_def)

text \<open>
  Claim C4, amended. On a store that accepts the writer's credential and database id, is
  never down, and holds no more live pages than one query returns, with distinct ids,
  \<^const>\<open>update_db\<close> on the empty ranking returns true after one query and one archive
  request per live page and no other request; every page is then archived and none is
  added, so the store has no live page. A second call on the empty ranking returns true
  again after a single request, the query, and leaves the pages as they are.
\<close>

theorem update_db_empty_ranking:
  assumes "notion_api_key self = api_key s" and "db_id self = database s"
      and "\<forall>n. \<not> down s n"
      and "length (live s) \<le> page_size s"
      and "distinct (map page_id (live s))"
  shows "fst (update_db notion self today [] s) = Inr True
       \<and> pages (snd (update_db notion self today [] s))
           = map (\<lambda>p. p\<lparr>archived := True\<rparr>) (pages s)
       \<and> live (snd (update_db notion self today [] s)) = []
       \<and> journal (snd (update_db notion self today [] s))
           = journal s @ query_request self
               # map (\<lambda>p. archive_request self (page_id p)) (live s)
       \<and> fst (update_db notion self today [] (snd (update_db notion self today [] s)))
           = Inr True
       \<and> pages (snd (update_db notion self today [] (snd (update_db notion self today [] s))))
           = pages (snd (update_db notion self today [] s))
       \<and> journal (snd (update_db notion self today [] (snd (update_db notion self today [] s))))
           = journal (snd (update_db notion self today [] s)) @ [query_request self]"
proof -
  let ?s1 = "s\<lparr>journal := journal s @ [query_request self]\<rparr>"
  let ?ids = "map page_id (live s)"
  have q: "get_current_pages_id notion self s
             = (Inr (map (\<lambda>p. PStr (page_id p)) (live s)), ?s1)"
    using notion_get_current_pages_id_accepted [of self s] assms by simp
  have live1: "live ?s1 = live s" by (simp add: live_def)
  have "fst (delete_pages notion self ?ids ?s1)"
    using assms by (intro notion_delete_pages_accepted) (simp_all add: live1)
  then obtain s2 where d: "delete_pages notion self ?ids ?s1 = (True, s2)"
    by (cases "delete_pages notion self ?ids ?s1") simp
  have "set (map page_id (live ?s1)) \<subseteq> set ?ids" by (simp add: live1)
  from notion_delete_pages [OF d] live_all_archived [OF this]
  have s2: "s2 = s\<lparr>journal := journal s @ query_request self
                                # map (\<lambda>p. archive_request self (page_id p)) (live s),
                    pages := map (\<lambda>p. p\<lparr>archived := True\<rparr>) (pages s)\<rparr>"
    by (simp add: o_def)
  have first: "update_db notion self today [] s = (Inr True, s2)"
    by (simp add: update_db_def q page_ids_str_PStr d)
  have live2: "live s2 = []" by (simp add: s2 live_def filter_map o_def)
  have q2: "get_current_pages_id notion self s2
              = (Inr [], s2\<lparr>journal := journal s2 @ [query_request self]\<rparr>)"
    using notion_get_current_pages_id_accepted [of self s2] assms live2 by (simp add: s2)
  have second: "update_db notion self today [] s2
                  = (Inr True, s2\<lparr>journal := journal s2 @ [query_request self]\<rparr>)"
    by (simp add: update_db_def q2)
  show ?thesis
    by (simp add: first second live2) (simp add: s2)
qed

theorem update_db_empty_ranking_witness:
  "notion_api_key example_writer = api_key (example_store 100)
   \<and> db_id example_writer = database (example_store 100)
   \<and> length (live (example_store 100)) \<le> page_size (example_store 100)
   \<and> distinct (map page_id (live (example_store 100)))
   \<and> fst (update_db notion example_writer example_date [] (example_store 100)) = Inr True
   \<and> live (snd (update_db notion example_writer example_date [] (example_store 100))) = []
   \<and> journal (snd (update_db notion example_writer example_date [] (example_store 100)))
       = [query_request example_writer, archive_request example_writer ''P1'',
          archive_request example_writer ''P2'']"
proof -
  have key: "notion_api_key example_writer = api_key (example_store 100)"
    and db: "db_id example_writer = database (example_store 100)"
    and up: "\<forall>n. \<not> down (example_store 100) n"
    and fits: "length (live (example_store 100)) \<le> page_size (example_store 100)"
    and dist: "distinct (map page_id (live (example_store 100)))"
    and pages: "live (example_store 100)
                  = [\<lparr>page_id = ''P1'', archived = False, content = PNone\<rparr>,
                     \<lparr>page_id = ''P2'', archived = False, content = PNone\<rparr>]"
    and empty: "journal (example_store 100) = []"
    by (simp_all add: example_writer_def example_store_def live_def)
  from update_db_empty_ranking [OF key db up fits dist, of example_date] key db fits dist
  show ?thesis
    by (simp add: pages empty)
qed

end
